theory Spec2Isabelle
  imports Complex_Main
begin

section \<open>Resistor colour-code decoding (server/main.py)\<close>

text \<open>
  Numbers. A Python \<^verbatim>\<open>int\<close> is an integer and a finite Python \<^verbatim>\<open>float\<close> is the real
  number it denotes, both in \<^typ>\<open>real\<close>. An operation on floats is the exact operation
  followed by the rounding of IEEE 754 binary64 (\<open>round_binary64\<close> below): to the nearest
  representable number, a tie going to the one with the even significand. A decimal literal
  that is no binary64 number, such as \<^verbatim>\<open>1e-1\<close>, denotes the result of rounding it. The
  operations on integers are exact. Infinities, NaN and the negative zero are outside the
  model; the decoder produces none of them from the colour table (its values are products
  of non-negative numbers, at most 999 * 10 ^ 9).
  A Python \<^verbatim>\<open>None\<close> is \<^term>\<open>None\<close> of an option type.

  Strings. A Python \<^verbatim>\<open>str\<close> is embedded as the \<^typ>\<open>string\<close> of its UTF-8 bytes, so the
  ohm sign is two characters. The built-in methods \<^verbatim>\<open>str.strip\<close> and \<^verbatim>\<open>str.lower\<close> depend on
  the Unicode tables of the interpreter; they are parameters of the normalizer, and what is
  known of them on ASCII strings is stated as a hypothesis where it is used.
\<close>

subsection \<open>Binary64 rounding\<close>

text \<open>Rounding a real to the nearest integer, a tie going to the even one.\<close>

definition round_half_even :: "real \<Rightarrow> int" where
  "round_half_even x =
    (let f = \<lfloor>x\<rfloor>; d = x - of_int f
     in if d < 1/2 then f else if d > 1/2 then f + 1 else if even f then f else f + 1)"

text \<open>
  Binary64 numbers have a significand of 53 bits: in the binade \<open>2 ^ e \<le> \<bar>x\<bar> < 2 ^ (e + 1)\<close>
  they are the multiples of \<open>2 ^ (e - 52)\<close>, and below \<open>2 ^ - 1022\<close> (the subnormal range) the
  multiples of \<open>2 ^ - 1074\<close>. Rounding takes the nearest multiple. (A result of magnitude
  \<open>2 ^ 1024\<close> or more stands for an overflow to infinity, which the model does not have.)
\<close>

definition round_binary64 :: "real \<Rightarrow> real" where
  "round_binary64 x =
    (if x = 0 then 0
     else
       (let e = max \<lfloor>log 2 \<bar>x\<bar>\<rfloor> (- 1022);
            u = 2 powi (e - 52)
        in sgn x * of_int (round_half_even (\<bar>x\<bar> / u)) * u))"

subsection \<open>Color code tables\<close>

text \<open>
  \<^verbatim>\<open>COLOR_CODE\<close> is a dictionary of dictionaries: colour name to the facts known for that
  colour, under the keys \<^verbatim>\<open>digit\<close>, \<^verbatim>\<open>multiplier\<close> and \<^verbatim>\<open>tolerance\<close>. The digits are
  integers, the multipliers and tolerances floats; of these \<^verbatim>\<open>1e-1\<close>, \<^verbatim>\<open>1e-2\<close>, \<^verbatim>\<open>0.1\<close>
  and \<^verbatim>\<open>0.05\<close> are no binary64 numbers and are rounded.
\<close>

definition COLOR_CODE_items :: "(string \<times> (string \<times> real) list) list" where
  "COLOR_CODE_items =
    [ (''black'',  [(''digit'', 0), (''multiplier'', 1)]),
      (''brown'',  [(''digit'', 1), (''multiplier'', 10), (''tolerance'', 1)]),
      (''red'',    [(''digit'', 2), (''multiplier'', 100), (''tolerance'', 2)]),
      (''orange'', [(''digit'', 3), (''multiplier'', 1000)]),
      (''yellow'', [(''digit'', 4), (''multiplier'', 10000)]),
      (''green'',  [(''digit'', 5), (''multiplier'', 100000), (''tolerance'', 1/2)]),
      (''blue'',   [(''digit'', 6), (''multiplier'', 1000000), (''tolerance'', 1/4)]),
      (''violet'', [(''digit'', 7), (''multiplier'', 10000000),
                    (''tolerance'', round_binary64 (1/10))]),
      (''grey'',   [(''digit'', 8), (''multiplier'', 100000000),
                    (''tolerance'', round_binary64 (1/20))]),
      (''white'',  [(''digit'', 9), (''multiplier'', 1000000000)]),
      (''gold'',   [(''multiplier'', round_binary64 (1/10)), (''tolerance'', 5)]),
      (''silver'', [(''multiplier'', round_binary64 (1/100)), (''tolerance'', 10)]) ]"

definition COLOR_CODE :: "string \<rightharpoonup> (string \<rightharpoonup> real)" where
  "COLOR_CODE = map_of (map (\<lambda>(c, kvs). (c, map_of kvs)) COLOR_CODE_items)"

definition TOL_COLORS :: "string set" where
  "TOL_COLORS =
    {''brown'', ''red'', ''green'', ''blue'', ''violet'', ''grey'', ''gold'', ''silver''}"

text \<open>The idiom \<^verbatim>\<open>COLOR_CODE.get(c, {}).get(k)\<close>: a colour that is no key of the table
  is looked up in the empty dictionary, so both misses give \<^verbatim>\<open>None\<close>.\<close>

definition get_get :: "string \<Rightarrow> string \<Rightarrow> real option" where
  "get_get c k = (case COLOR_CODE c of None \<Rightarrow> Map.empty k | Some e \<Rightarrow> e k)"

subsection \<open>Alias normalizer\<close>









subsection \<open>Band decoder\<close>

text \<open>
  The digits are integers, so \<^verbatim>\<open>d1*10 + d2\<close> is exact; its product with the multiplier, a
  float, is a float product and is rounded.
\<close>

definition compute_value_from_colors :: "string list \<Rightarrow> real option \<times> real option" where
  "compute_value_from_colors colors =
    (let n = length colors in
     if n = 4 then
       (let d1 = get_get (colors ! 0) ''digit'';
            d2 = get_get (colors ! 1) ''digit'';
            mult = get_get (colors ! 2) ''multiplier'';
            tol = get_get (colors ! 3) ''tolerance''
        in (case (d1, d2, mult) of
              (Some a, Some b, Some m) \<Rightarrow> Some (round_binary64 ((a * 10 + b) * m))
            | _ \<Rightarrow> None, tol))
     else if n = 5 then
       (let d1 = get_get (colors ! 0) ''digit'';
            d2 = get_get (colors ! 1) ''digit'';
            d3 = get_get (colors ! 2) ''digit'';
            mult = get_get (colors ! 3) ''multiplier'';
            tol = get_get (colors ! 4) ''tolerance''
        in (case (d1, d2, d3, mult) of
              (Some a, Some b, Some c, Some m) \<Rightarrow>
                Some (round_binary64 ((a * 100 + b * 10 + c) * m))
            | _ \<Rightarrow> None, tol))
     else if n = 3 then
       (let d1 = get_get (colors ! 0) ''digit'';
            d2 = get_get (colors ! 1) ''digit'';
            mult = get_get (colors ! 2) ''multiplier''
        in (case (d1, d2, mult) of
              (Some a, Some b, Some m) \<Rightarrow> Some (round_binary64 ((a * 10 + b) * m))
            | _ \<Rightarrow> None, None))
     else if n \<ge> 6 then
       (let d1 = get_get (colors ! 0) ''digit'';
            d2 = get_get (colors ! 1) ''digit'';
            d3 = get_get (colors ! 2) ''digit'';
            mult = get_get (colors ! 3) ''multiplier'';
            tol = get_get (colors ! 4) ''tolerance''
        in (case (d1, d2, d3, mult) of
              (Some a, Some b, Some c, Some m) \<Rightarrow>
                Some (round_binary64 ((a * 100 + b * 10 + c) * m))
            | _ \<Rightarrow> None, tol))
     else (None, None))"

subsection \<open>Display formatter\<close>

text \<open>
  The format specification \<^verbatim>\<open>.2f\<close> prints the number a float denotes rounded to two
  decimals, a tie going to the even neighbour: a minus sign for a negative number, the
  integer part in decimal, a point, two digits.
\<close>

definition digit_char :: "nat \<Rightarrow> char" where
  "digit_char d = ''0123456789'' ! d"

fun str_nat :: "nat \<Rightarrow> string" where
  "str_nat n =
    (if n < 10 then [digit_char n] else str_nat (n div 10) @ [digit_char (n mod 10)])"

declare str_nat.simps [simp del]

definition format_2f :: "real \<Rightarrow> string" where
  "format_2f x =
    (let q = nat (round_half_even (\<bar>x\<bar> * 100))
     in (if x < 0 then ''-'' else '''') @ str_nat (q div 100) @ ''.'' @
        [digit_char (q mod 100 div 10), digit_char (q mod 10)])"

definition Ohm :: string where
  "Ohm = [CHR 0xCE, CHR 0xA9]"

definition units :: "(string \<times> real) list" where
  "units = [(''G'' @ Ohm, 1000000000), (''M'' @ Ohm, 1000000), (''k'' @ Ohm, 1000), (Ohm, 1)]"

text \<open>
  The \<^verbatim>\<open>for\<close> loop of \<^verbatim>\<open>human\<close> over the unit table, with the fallback after it. The
  quotient \<^verbatim>\<open>v/scale\<close> is a float division.
\<close>

fun human_loop :: "real \<Rightarrow> (string \<times> real) list \<Rightarrow> string" where
  "human_loop v [] = format_2f v @ '' '' @ Ohm"
| "human_loop v ((name, scale) # rest) =
     (if v \<ge> scale then format_2f (round_binary64 (v / scale)) @ '' '' @ name
      else human_loop v rest)"

definition human :: "real option \<Rightarrow> string option" where
  "human v = (case v of None \<Rightarrow> None | Some x \<Rightarrow> Some (human_loop x units))"

text \<open>
  The number that a string of decimal digits denotes; it serves to say what the formatter
  prints.
\<close>

definition decimal_value :: "string \<Rightarrow> nat" where
  "decimal_value s = foldl (\<lambda>a c. 10 * a + (of_char c - 48)) 0 s"

subsection \<open>Endpoint: from the bands read to the response\<close>

text \<open>
  The part of \<^verbatim>\<open>analyze\<close> after the remote model has answered. Its input is the first
  component of \<^verbatim>\<open>gemini_read_bands\<close>: \<^verbatim>\<open>None\<close> or the list of normalized colour names.
  Of the response, the fields \<^verbatim>\<open>ok\<close>, \<^verbatim>\<open>message\<close>, \<^verbatim>\<open>colors\<close>, \<^verbatim>\<open>value_ohms\<close>,
  \<^verbatim>\<open>value_display\<close> and \<^verbatim>\<open>tolerance_pct\<close> are modelled; the two fields of the snapped value
  and the two that echo the remote reply are left out.
\<close>

text \<open>Lines 286 to 290: put the tolerance band to the right if only one end is tolerance.\<close>

definition orient :: "string list \<Rightarrow> string list" where
  "orient colors =
    (if colors \<noteq> [] then
       (let left_is_tol = hd colors \<in> TOL_COLORS;
            right_is_tol = last colors \<in> TOL_COLORS
        in if left_is_tol \<and> \<not> right_is_tol then rev colors else colors)
     else colors)"

record AnalyzeResponse =
  ok :: bool
  message :: "string option"
  colors :: "string list option"
  value_ohms :: "real option"
  value_display :: "string option"
  tolerance_pct :: "real option"

definition analyze :: "string list option \<Rightarrow> AnalyzeResponse" where
  "analyze read =
    (case read of
       None \<Rightarrow> \<lparr>ok = False,
                message = Some ''Gemini could not read bands (model/key access issue?)'',
                colors = None, value_ohms = None, value_display = None,
                tolerance_pct = None\<rparr>
     | Some cs0 \<Rightarrow>
         if cs0 = [] then
           \<lparr>ok = False,
            message = Some ''Gemini could not read bands (model/key access issue?)'',
            colors = None, value_ohms = None, value_display = None, tolerance_pct = None\<rparr>
         else
           (let cs = orient cs0;
                (val, tol) = compute_value_from_colors cs
            in \<lparr>ok = True, message = None, colors = Some cs, value_ohms = val,
                value_display = human val, tolerance_pct = tol\<rparr>))"

text \<open>The condition of the decoder's failure cases: a colour with no digit entry.\<close>

definition no_digit_color :: "string \<Rightarrow> bool" where
  "no_digit_color c \<longleftrightarrow> c = ''gold'' \<or> c = ''silver'' \<or> c \<notin> dom COLOR_CODE"


section \<open>Properties of the rounding functions\<close>

lemma round_half_even_of_int: "round_half_even (of_int k) = k"
  by (simp add: round_half_even_def)

lemma round_half_even_nearest:
  "\<bar>of_int (round_half_even y) - y\<bar> < 1/2
   \<or> (\<bar>of_int (round_half_even y) - y\<bar> = 1/2 \<and> even (round_half_even y))"
proof -
  define f where "f = \<lfloor>y\<rfloor>"
  define d where "d = y - of_int f"
  have d: "0 \<le> d" "d < 1" unfolding d_def f_def by linarith+
  have y: "y = of_int f + d" by (simp add: d_def)
  have r: "round_half_even y =
      (if d < 1/2 then f else if d > 1/2 then f + 1 else if even f then f else f + 1)"
    by (simp add: round_half_even_def Let_def f_def d_def)
  have df: "\<bar>of_int f - y\<bar> = d" and df1: "\<bar>of_int (f + 1) - y\<bar> = 1 - d"
    using d by (simp_all add: y)
  consider "d < 1/2" | "d > 1/2" | "d = 1/2" by linarith
  then show ?thesis
  proof cases
    case 1
    then have "round_half_even y = f" by (simp add: r)
    then show ?thesis using 1 df by simp
  next
    case 2
    then have "round_half_even y = f + 1" by (simp add: r)
    then show ?thesis using 2 df1 by simp
  next
    case 3
    show ?thesis
    proof (cases "even f")
      case True
      then have "round_half_even y = f" using 3 by (simp add: r)
      then show ?thesis using 3 True df by simp
    next
      case False
      then have "round_half_even y = f + 1" using 3 by (simp add: r)
      then show ?thesis using 3 False df1 by simp
    qed
  qed
qed

lemma round_half_even_nonneg: "0 \<le> y \<Longrightarrow> 0 \<le> round_half_even y"
  unfolding round_half_even_def Let_def by (auto simp: abs_if)

lemma round_binary64_at:
  assumes "2 powi e \<le> \<bar>x\<bar>" "\<bar>x\<bar> < 2 powi (e + 1)" "- 1022 \<le> e"
  shows "round_binary64 x =
     sgn x * of_int (round_half_even (\<bar>x\<bar> / 2 powi (e - 52))) * 2 powi (e - 52)"
proof -
  have "(0::real) < 2 powi e" by simp
  then have pos: "0 < \<bar>x\<bar>" using assms(1) by linarith
  have "(2::real) powr (of_int e) = 2 powi e" "(2::real) powr (of_int e + 1) = 2 powi (e + 1)"
    using powr_real_of_int' [of 2 e] powr_real_of_int' [of 2 "e + 1"] by simp_all
  then have "\<lfloor>log 2 \<bar>x\<bar>\<rfloor> = e"
    using assms pos by (subst floor_log_eq_powr_iff) simp_all
  then show ?thesis using pos assms(3) by (simp add: round_binary64_def Let_def max_def)
qed

text \<open>An integer below \<open>2 ^ 53\<close> is a binary64 number: rounding leaves it as it is.\<close>

lemma round_binary64_of_nat:
  assumes "n < 2 ^ 53"
  shows "round_binary64 (real n) = real n"
proof (cases "n = 0")
  case True
  then show ?thesis by (simp add: round_binary64_def)
next
  case False
  define e where "e = \<lfloor>log 2 (real n)\<rfloor>"
  have n1: "1 \<le> real n" using False by simp
  have "0 \<le> log 2 (real n)" using n1 by simp
  then have e0: "0 \<le> e" by (simp add: e_def)
  have "real n < 2 ^ 53" using assms by (metis of_nat_less_iff of_nat_numeral of_nat_power)
  then have "log 2 (real n) < 53"
    using n1 by (simp add: log_less_iff)
  then have e52: "e \<le> 52" by (simp add: e_def floor_le_iff)
  define k where "k = nat (52 - e)"
  have u: "(2::real) powi (e - 52) = 1 / 2 ^ k"
  proof -
    have "e - 52 = - int k" using e52 by (simp add: k_def)
    then show ?thesis by (simp add: power_int_minus divide_inverse)
  qed
  have "real n * 2 ^ k = of_int (int n * 2 ^ k)" by simp
  then have r: "round_half_even (real n * 2 ^ k) = int n * 2 ^ k"
    by (simp only: round_half_even_of_int)
  have m: "max \<lfloor>log 2 \<bar>real n\<bar>\<rfloor> (- 1022) = e"
    using e0 by (simp add: e_def)
  have "real n \<noteq> 0" using False by simp
  then have "round_binary64 (real n) =
      sgn (real n) * of_int (round_half_even (\<bar>real n\<bar> / 2 powi (e - 52))) * 2 powi (e - 52)"
    unfolding round_binary64_def Let_def m by (rule if_not_P)
  also have "\<dots> = of_int (int n * 2 ^ k) * (1 / 2 ^ k)"
    using n1 by (simp only: u) (simp add: r)
  also have "\<dots> = real n" by simp
  finally show ?thesis .
qed

lemma round_binary64_numeral:
  "numeral k < (2::nat) ^ 53 \<Longrightarrow> round_binary64 (numeral k) = numeral k"
  using round_binary64_of_nat [of "numeral k"] by simp

text \<open>The values of the rounded literals of the colour table.\<close>

lemma binary64_tenth: "round_binary64 (1 / 10) = 3602879701896397 / 36028797018963968"
proof -
  have "round_binary64 (1 / 10) =
     sgn (1 / 10 :: real) * of_int (round_half_even (\<bar>1 / 10\<bar> / 2 powi (- 4 - 52)))
       * 2 powi (- 4 - 52)"
    by (rule round_binary64_at) simp_all
  then show ?thesis
    by (simp add: round_half_even_def)
qed

lemma binary64_hundredth: "round_binary64 (1 / 100) = 5764607523034235 / 576460752303423488"
proof -
  have "round_binary64 (1 / 100) =
     sgn (1 / 100 :: real) * of_int (round_half_even (\<bar>1 / 100\<bar> / 2 powi (- 7 - 52)))
       * 2 powi (- 7 - 52)"
    by (rule round_binary64_at) simp_all
  then show ?thesis
    by (simp add: round_half_even_def)
qed

lemma binary64_twentieth: "round_binary64 (1 / 20) = 3602879701896397 / 72057594037927936"
proof -
  have "round_binary64 (1 / 20) =
     sgn (1 / 20 :: real) * of_int (round_half_even (\<bar>1 / 20\<bar> / 2 powi (- 5 - 52)))
       * 2 powi (- 5 - 52)"
    by (rule round_binary64_at) simp_all
  then show ?thesis
    by (simp add: round_half_even_def)
qed

text \<open>
  The result of the rounding is a multiple of the spacing \<open>u\<close> of the binary64 numbers around
  \<open>x\<close>, it lies within half a spacing of \<open>x\<close>, and in a tie the multiple is even.
\<close>

lemma round_binary64_nearest:
  assumes "x \<noteq> 0"
  shows "let u = 2 powi (max \<lfloor>log 2 \<bar>x\<bar>\<rfloor> (- 1022) - 52)
    in \<exists>k. round_binary64 x = sgn x * of_int k * u
     \<and> (\<bar>of_int k * u - \<bar>x\<bar>\<bar> < u / 2 \<or> (\<bar>of_int k * u - \<bar>x\<bar>\<bar> = u / 2 \<and> even k))"
proof -
  define u :: real where "u = 2 powi (max \<lfloor>log 2 \<bar>x\<bar>\<rfloor> (- 1022) - 52)"
  define k where "k = round_half_even (\<bar>x\<bar> / u)"
  have u: "0 < u" by (simp add: u_def)
  have r: "round_binary64 x = sgn x * of_int k * u"
    using assms(1) by (simp add: round_binary64_def Let_def k_def u_def)
  have d: "of_int k * u - \<bar>x\<bar> = (of_int k - \<bar>x\<bar> / u) * u"
    using u by (simp add: field_simps)
  have "\<bar>of_int k * u - \<bar>x\<bar>\<bar> = \<bar>of_int k - \<bar>x\<bar> / u\<bar> * u"
    unfolding d using u by (simp add: abs_mult)
  moreover have "\<bar>of_int k - \<bar>x\<bar> / u\<bar> < 1/2
      \<or> (\<bar>of_int k - \<bar>x\<bar> / u\<bar> = 1/2 \<and> even k)"
    unfolding k_def by (rule round_half_even_nearest)
  ultimately have "\<bar>of_int k * u - \<bar>x\<bar>\<bar> < u / 2
      \<or> (\<bar>of_int k * u - \<bar>x\<bar>\<bar> = u / 2 \<and> even k)"
    using u by (auto simp: field_simps)
  with r have "\<exists>k. round_binary64 x = sgn x * of_int k * u
     \<and> (\<bar>of_int k * u - \<bar>x\<bar>\<bar> < u / 2 \<or> (\<bar>of_int k * u - \<bar>x\<bar>\<bar> = u / 2 \<and> even k))"
    by blast
  then show ?thesis unfolding Let_def u_def .
qed

section \<open>Properties of the band decoder\<close>

lemmas table_defs = get_get_def COLOR_CODE_def COLOR_CODE_items_def









lemma product_10_tenth: "round_binary64 (10 * round_binary64 (1 / 10)) = 1"
proof -
  have "round_binary64 (10 * (3602879701896397 / 36028797018963968)) =
     sgn (10 * (3602879701896397 / 36028797018963968) :: real) *
     of_int (round_half_even
       (\<bar>10 * (3602879701896397 / 36028797018963968)\<bar> / 2 powi (0 - 52))) * 2 powi (0 - 52)"
    by (rule round_binary64_at) simp_all
  then show ?thesis
    unfolding binary64_tenth by (simp add: round_half_even_def)
qed

lemma product_10_hundredth:
  "round_binary64 (10 * round_binary64 (1 / 100)) = 3602879701896397 / 36028797018963968"
proof -
  have "round_binary64 (10 * (5764607523034235 / 576460752303423488)) =
     sgn (10 * (5764607523034235 / 576460752303423488) :: real) *
     of_int (round_half_even
       (\<bar>10 * (5764607523034235 / 576460752303423488)\<bar> / 2 powi (- 4 - 52))) * 2 powi (- 4 - 52)"
    by (rule round_binary64_at) simp_all
  then show ?thesis
    unfolding binary64_hundredth by (simp add: round_half_even_def)
qed



lemma no_digit_color_get: "no_digit_color c \<Longrightarrow> get_get c ''digit'' = None"
  unfolding no_digit_color_def
  by (auto simp: get_get_def COLOR_CODE_def COLOR_CODE_items_def split: option.splits)

lemma not_key_get: "c \<notin> dom COLOR_CODE \<Longrightarrow> get_get c k = None"
  by (simp add: get_get_def domIff)

lemma value_absent_3_4:
  assumes "length cs = 3 \<or> length cs = 4"
    and "get_get (cs ! 0) ''digit'' = None \<or> get_get (cs ! 1) ''digit'' = None \<or>
         get_get (cs ! 2) ''multiplier'' = None"
  shows "fst (compute_value_from_colors cs) = None"
  using assms
  by (auto simp: compute_value_from_colors_def Let_def split: option.splits)

lemma value_absent_ge_5:
  assumes "5 \<le> length cs"
    and "get_get (cs ! 0) ''digit'' = None \<or> get_get (cs ! 1) ''digit'' = None \<or>
         get_get (cs ! 2) ''digit'' = None \<or> get_get (cs ! 3) ''multiplier'' = None"
  shows "fst (compute_value_from_colors cs) = None"
  using assms
  by (auto simp: compute_value_from_colors_def Let_def split: option.splits)

text \<open>
  Claim C2, as amended. The decoder returns no value whenever a colour in a digit position is
  gold, silver or no key of the colour table, or the colour in the multiplier position is no
  key of the colour table. (Gold and silver do have a multiplier entry, so in the multiplier
  position they give a value.) The digit positions are 0 and 1 for three and four bands and
  0, 1 and 2 for five bands or more; the multiplier position is 2, respectively 3.
\<close>

theorem decode_absent_value:
  assumes "(length cs = 3 \<or> length cs = 4) \<and>
             (no_digit_color (cs ! 0) \<or> no_digit_color (cs ! 1) \<or>
              cs ! 2 \<notin> dom COLOR_CODE)
           \<or> 5 \<le> length cs \<and>
             (no_digit_color (cs ! 0) \<or> no_digit_color (cs ! 1) \<or>
              no_digit_color (cs ! 2) \<or> cs ! 3 \<notin> dom COLOR_CODE)"
  shows "fst (compute_value_from_colors cs) = None"
  using assms
proof (elim disjE conjE)
  assume "length cs = 3" "no_digit_color (cs ! 0)"
  then show ?thesis by (simp add: value_absent_3_4 no_digit_color_get)
next
  assume "length cs = 3" "no_digit_color (cs ! 1)"
  then show ?thesis by (simp add: value_absent_3_4 no_digit_color_get)
next
  assume "length cs = 3" "cs ! 2 \<notin> dom COLOR_CODE"
  then show ?thesis by (simp add: value_absent_3_4 not_key_get)
next
  assume "length cs = 4" "no_digit_color (cs ! 0)"
  then show ?thesis by (simp add: value_absent_3_4 no_digit_color_get)
next
  assume "length cs = 4" "no_digit_color (cs ! 1)"
  then show ?thesis by (simp add: value_absent_3_4 no_digit_color_get)
next
  assume "length cs = 4" "cs ! 2 \<notin> dom COLOR_CODE"
  then show ?thesis by (simp add: value_absent_3_4 not_key_get)
next
  assume "5 \<le> length cs" "no_digit_color (cs ! 0)"
  then show ?thesis by (simp add: value_absent_ge_5 no_digit_color_get)
next
  assume "5 \<le> length cs" "no_digit_color (cs ! 1)"
  then show ?thesis by (simp add: value_absent_ge_5 no_digit_color_get)
next
  assume "5 \<le> length cs" "no_digit_color (cs ! 2)"
  then show ?thesis by (simp add: value_absent_ge_5 no_digit_color_get)
next
  assume "5 \<le> length cs" "cs ! 3 \<notin> dom COLOR_CODE"
  then show ?thesis by (simp add: value_absent_ge_5 not_key_get)
qed

theorem decode_absent_value_witness:
  "fst (compute_value_from_colors [''gold'', ''red'', ''red'', ''brown'']) = None
   \<and> fst (compute_value_from_colors [''red'', ''silver'', ''red'']) = None
   \<and> fst (compute_value_from_colors [''red'', ''red'', ''pink'', ''brown'']) = None
   \<and> fst (compute_value_from_colors [''red'', ''red'', ''teal'', ''red'', ''brown'', ''red'']) = None
   \<and> fst (compute_value_from_colors [''red'', ''red'', ''red'', ''beige'', ''brown'']) = None"
  using decode_absent_value [of "[''gold'', ''red'', ''red'', ''brown'']"]
    decode_absent_value [of "[''red'', ''silver'', ''red'']"]
    decode_absent_value [of "[''red'', ''red'', ''pink'', ''brown'']"]
    decode_absent_value [of "[''red'', ''red'', ''teal'', ''red'', ''brown'', ''red'']"]
    decode_absent_value [of "[''red'', ''red'', ''red'', ''beige'', ''brown'']"]
  by (simp add: no_digit_color_def COLOR_CODE_def COLOR_CODE_items_def dom_def)

text \<open>
  Claim C2 as stated fails: with gold, or silver, in the multiplier position of a 4-band
  sequence the decoder returns a value.
\<close>

theorem decode_gold_multiplier_counterexample:
  "[''brown'', ''black'', ''gold'', ''gold''] ! 2 = ''gold''
   \<and> compute_value_from_colors [''brown'', ''black'', ''gold'', ''gold''] = (Some 1, Some 5)
   \<and> [''brown'', ''black'', ''silver'', ''gold''] ! 2 = ''silver''
   \<and> compute_value_from_colors [''brown'', ''black'', ''silver'', ''gold''] =
       (Some (3602879701896397 / 36028797018963968), Some 5)"
  by (simp add: compute_value_from_colors_def table_defs product_10_tenth product_10_hundredth)

text \<open>
  Claim C3. For a band sequence of length 4, 5 or at least 6, if one of the required digit or
  multiplier lookups fails, the decoder returns no value, and with it the tolerance entry of
  the colour in the tolerance position (index 3 for four bands, index 4 otherwise), whatever
  that lookup gives.
\<close>

theorem decode_failed_lookup_keeps_tolerance:
  assumes "4 \<le> length cs"
    and "get_get (cs ! 0) ''digit'' = None \<or> get_get (cs ! 1) ''digit'' = None \<or>
         (if length cs = 4 then get_get (cs ! 2) ''multiplier'' = None
          else get_get (cs ! 2) ''digit'' = None \<or> get_get (cs ! 3) ''multiplier'' = None)"
  shows "compute_value_from_colors cs =
           (None, get_get (cs ! (if length cs = 4 then 3 else 4)) ''tolerance'')"
  using assms
  by (auto simp: compute_value_from_colors_def Let_def split: option.splits if_splits)

theorem decode_failed_lookup_keeps_tolerance_witness:
  "compute_value_from_colors [''gold'', ''red'', ''red'', ''brown''] = (None, Some 1)
   \<and> compute_value_from_colors [''red'', ''red'', ''pink'', ''white''] = (None, None)
   \<and> compute_value_from_colors [''red'', ''red'', ''silver'', ''red'', ''gold''] = (None, Some 5)
   \<and> compute_value_from_colors [''red'', ''red'', ''red'', ''mauve'', ''green'', ''red''] = (None, Some (1/2))"
  using decode_failed_lookup_keeps_tolerance [of "[''gold'', ''red'', ''red'', ''brown'']"]
    decode_failed_lookup_keeps_tolerance [of "[''red'', ''red'', ''pink'', ''white'']"]
    decode_failed_lookup_keeps_tolerance [of "[''red'', ''red'', ''silver'', ''red'', ''gold'']"]
    decode_failed_lookup_keeps_tolerance [of "[''red'', ''red'', ''red'', ''mauve'', ''green'', ''red'']"]
  by (simp add: table_defs)

text \<open>
  Claim C4. A band sequence of length at least 6 decodes to the same pair as its first five
  elements; in particular a 6-band sequence decodes as the 5-band sequence without its last
  element.
\<close>

theorem decode_six_or_more_as_five:
  "(6 \<le> length cs \<longrightarrow>
      compute_value_from_colors cs = compute_value_from_colors (take 5 cs))
   \<and> (length cs = 6 \<longrightarrow>
      compute_value_from_colors cs = compute_value_from_colors (butlast cs))"
proof (intro conjI impI)
  assume "6 \<le> length cs"
  then show "compute_value_from_colors cs = compute_value_from_colors (take 5 cs)"
    by (simp add: compute_value_from_colors_def)
next
  assume "length cs = 6"
  then show "compute_value_from_colors cs = compute_value_from_colors (butlast cs)"
    by (simp add: compute_value_from_colors_def nth_butlast)
qed

theorem decode_six_or_more_as_five_witness:
  "compute_value_from_colors [''red'', ''red'', ''black'', ''brown'', ''brown'', ''red''] =
     compute_value_from_colors [''red'', ''red'', ''black'', ''brown'', ''brown'']
   \<and> compute_value_from_colors [''red'', ''red'', ''black'', ''brown'', ''brown'', ''red'', ''pink''] =
     compute_value_from_colors [''red'', ''red'', ''black'', ''brown'', ''brown'']
   \<and> compute_value_from_colors [''red'', ''red'', ''black'', ''brown'', ''brown'', ''red''] = (Some 2200, Some 1)"
  using decode_six_or_more_as_five [of "[''red'', ''red'', ''black'', ''brown'', ''brown'', ''red'']"]
    decode_six_or_more_as_five [of "[''red'', ''red'', ''black'', ''brown'', ''brown'', ''red'', ''pink'']"]
  by (simp add: compute_value_from_colors_def table_defs round_binary64_numeral)


section \<open>Properties of the orientation correction\<close>

lemma analyze_decodes_oriented:
  assumes "cs \<noteq> []"
  shows "colors (analyze (Some cs)) = Some (orient cs)"
    and "value_ohms (analyze (Some cs)) = fst (compute_value_from_colors (orient cs))"
    and "tolerance_pct (analyze (Some cs)) = snd (compute_value_from_colors (orient cs))"
  using assms by (simp_all add: analyze_def Let_def split: prod.splits)

lemma orient_reverses:
  "cs \<noteq> [] \<Longrightarrow> hd cs \<in> TOL_COLORS \<Longrightarrow> last cs \<notin> TOL_COLORS \<Longrightarrow> orient cs = rev cs"
  by (simp add: orient_def)

lemma orient_keeps:
  "cs = [] \<or> hd cs \<notin> TOL_COLORS \<or> last cs \<in> TOL_COLORS \<Longrightarrow> orient cs = cs"
  by (auto simp: orient_def)

text \<open>
  Claim C7, as amended. The general rule: a non-empty band sequence whose first colour is a
  tolerance colour (gold, silver, brown, red, green, blue, violet, grey) and whose last colour
  is not one is reversed before it is decoded. The colours gold, red, violet, brown are not
  such a sequence: brown, the last colour, is a tolerance colour as well, and the sequence
  is decoded as it is.
\<close>

theorem orient_reverse_rule:
  "(cs \<noteq> [] \<and> hd cs \<in> TOL_COLORS \<and> last cs \<notin> TOL_COLORS \<longrightarrow>
      orient cs = rev cs \<and>
      colors (analyze (Some cs)) = Some (rev cs) \<and>
      value_ohms (analyze (Some cs)) = fst (compute_value_from_colors (rev cs)) \<and>
      tolerance_pct (analyze (Some cs)) = snd (compute_value_from_colors (rev cs)))
   \<and> TOL_COLORS =
       {''brown'', ''red'', ''green'', ''blue'', ''violet'', ''grey'', ''gold'', ''silver''}
   \<and> orient [''gold'', ''red'', ''violet'', ''brown''] = [''gold'', ''red'', ''violet'', ''brown'']"
proof (intro conjI impI)
  assume h: "cs \<noteq> [] \<and> hd cs \<in> TOL_COLORS \<and> last cs \<notin> TOL_COLORS"
  then have r: "orient cs = rev cs"
    by (simp add: orient_reverses)
  from h have ne: "cs \<noteq> []" by simp
  show "orient cs = rev cs" by (rule r)
  show "colors (analyze (Some cs)) = Some (rev cs)"
    using analyze_decodes_oriented(1) [OF ne] r by simp
  show "value_ohms (analyze (Some cs)) = fst (compute_value_from_colors (rev cs))"
    using analyze_decodes_oriented(2) [OF ne] r by simp
  show "tolerance_pct (analyze (Some cs)) = snd (compute_value_from_colors (rev cs))"
    using analyze_decodes_oriented(3) [OF ne] r by simp
next
  show "TOL_COLORS =
       {''brown'', ''red'', ''green'', ''blue'', ''violet'', ''grey'', ''gold'', ''silver''}"
    by (rule TOL_COLORS_def)
next
  show "orient [''gold'', ''red'', ''violet'', ''brown''] = [''gold'', ''red'', ''violet'', ''brown'']"
    by (simp add: orient_def TOL_COLORS_def)
qed

theorem orient_reverse_rule_witness:
  "orient [''gold'', ''red'', ''violet'', ''yellow''] = [''yellow'', ''violet'', ''red'', ''gold'']
   \<and> colors (analyze (Some [''gold'', ''red'', ''violet'', ''yellow''])) =
       Some [''yellow'', ''violet'', ''red'', ''gold'']
   \<and> value_ohms (analyze (Some [''gold'', ''red'', ''violet'', ''yellow''])) = Some 4700
   \<and> tolerance_pct (analyze (Some [''gold'', ''red'', ''violet'', ''yellow''])) = Some 5"
  using orient_reverse_rule [of "[''gold'', ''red'', ''violet'', ''yellow'']"]
  by (simp add: TOL_COLORS_def compute_value_from_colors_def table_defs round_binary64_numeral)

text \<open>
  Claim C7 as stated fails: for the colours gold, red, violet, brown both ends are in the set
  of tolerance colours, so the sequence is not reversed, and the decoder receives it with gold
  in the first digit position.
\<close>

theorem orient_gold_to_brown_counterexample:
  "orient [''gold'', ''red'', ''violet'', ''brown''] \<noteq> rev [''gold'', ''red'', ''violet'', ''brown'']
   \<and> orient [''gold'', ''red'', ''violet'', ''brown''] = [''gold'', ''red'', ''violet'', ''brown'']
   \<and> colors (analyze (Some [''gold'', ''red'', ''violet'', ''brown''])) =
       Some [''gold'', ''red'', ''violet'', ''brown'']
   \<and> value_ohms (analyze (Some [''gold'', ''red'', ''violet'', ''brown''])) = None"
  by (simp add: analyze_def orient_def TOL_COLORS_def compute_value_from_colors_def table_defs)

text \<open>
  Claim C10. The orientation correction changes the band sequence only when the first colour
  is in the set of tolerance colours and the last colour is not, and then it reverses it.
  A non-empty sequence whose first and last colours are both tolerance colours is passed to
  the decoder unchanged, and so is every sequence whose first colour is not a tolerance colour.
\<close>

theorem orient_only_one_tolerance_end:
  "(orient cs \<noteq> cs \<longrightarrow>
      cs \<noteq> [] \<and> hd cs \<in> TOL_COLORS \<and> last cs \<notin> TOL_COLORS \<and> orient cs = rev cs)
   \<and> (cs \<noteq> [] \<and> hd cs \<in> TOL_COLORS \<and> last cs \<in> TOL_COLORS \<longrightarrow>
      orient cs = cs \<and>
      colors (analyze (Some cs)) = Some cs \<and>
      value_ohms (analyze (Some cs)) = fst (compute_value_from_colors cs) \<and>
      tolerance_pct (analyze (Some cs)) = snd (compute_value_from_colors cs))
   \<and> (cs \<noteq> [] \<and> hd cs \<notin> TOL_COLORS \<longrightarrow>
      orient cs = cs \<and>
      colors (analyze (Some cs)) = Some cs \<and>
      value_ohms (analyze (Some cs)) = fst (compute_value_from_colors cs) \<and>
      tolerance_pct (analyze (Some cs)) = snd (compute_value_from_colors cs))"
proof (intro conjI impI)
  assume "orient cs \<noteq> cs"
  then have "cs \<noteq> [] \<and> hd cs \<in> TOL_COLORS \<and> last cs \<notin> TOL_COLORS \<and> orient cs = rev cs"
    by (auto simp: orient_def split: if_splits)
  then show "cs \<noteq> []" "hd cs \<in> TOL_COLORS" "last cs \<notin> TOL_COLORS" "orient cs = rev cs"
    by simp_all
next
  assume h: "cs \<noteq> [] \<and> hd cs \<in> TOL_COLORS \<and> last cs \<in> TOL_COLORS"
  then have k: "orient cs = cs" and ne: "cs \<noteq> []"
    by (simp_all add: orient_keeps)
  show "orient cs = cs" by (rule k)
  show "colors (analyze (Some cs)) = Some cs"
    using analyze_decodes_oriented(1) [OF ne] k by simp
  show "value_ohms (analyze (Some cs)) = fst (compute_value_from_colors cs)"
    using analyze_decodes_oriented(2) [OF ne] k by simp
  show "tolerance_pct (analyze (Some cs)) = snd (compute_value_from_colors cs)"
    using analyze_decodes_oriented(3) [OF ne] k by simp
next
  assume h: "cs \<noteq> [] \<and> hd cs \<notin> TOL_COLORS"
  then have k: "orient cs = cs" and ne: "cs \<noteq> []"
    by (simp_all add: orient_keeps)
  show "orient cs = cs" by (rule k)
  show "colors (analyze (Some cs)) = Some cs"
    using analyze_decodes_oriented(1) [OF ne] k by simp
  show "value_ohms (analyze (Some cs)) = fst (compute_value_from_colors cs)"
    using analyze_decodes_oriented(2) [OF ne] k by simp
  show "tolerance_pct (analyze (Some cs)) = snd (compute_value_from_colors cs)"
    using analyze_decodes_oriented(3) [OF ne] k by simp
qed

theorem orient_only_one_tolerance_end_witness:
  "orient [''gold'', ''red'', ''violet'', ''yellow''] \<noteq> [''gold'', ''red'', ''violet'', ''yellow'']
   \<and> orient [''gold'', ''red'', ''violet'', ''yellow''] = rev [''gold'', ''red'', ''violet'', ''yellow'']
   \<and> orient [''gold'', ''black'', ''black'', ''brown''] = [''gold'', ''black'', ''black'', ''brown'']
   \<and> colors (analyze (Some [''gold'', ''black'', ''black'', ''brown''])) =
       Some [''gold'', ''black'', ''black'', ''brown'']
   \<and> orient [''yellow'', ''violet'', ''red'', ''gold''] = [''yellow'', ''violet'', ''red'', ''gold'']
   \<and> value_ohms (analyze (Some [''yellow'', ''violet'', ''red'', ''gold''])) = Some 4700"
  using orient_only_one_tolerance_end [of "[''gold'', ''red'', ''violet'', ''yellow'']"]
    orient_only_one_tolerance_end [of "[''gold'', ''black'', ''black'', ''brown'']"]
    orient_only_one_tolerance_end [of "[''yellow'', ''violet'', ''red'', ''gold'']"]
  by (simp add: orient_def TOL_COLORS_def compute_value_from_colors_def table_defs
      round_binary64_numeral)

section \<open>Properties of the display formatter\<close>

lemma digit_char_cases:
  assumes "d < 10"
  shows "digit_char d \<in> set ''0123456789'' \<and> (of_char (digit_char d) :: nat) = 48 + d"
proof -
  from assms have "d = 0 \<or> d = 1 \<or> d = 2 \<or> d = 3 \<or> d = 4 \<or> d = 5 \<or> d = 6 \<or> d = 7 \<or> d = 8
      \<or> d = 9"
    by arith
  then show ?thesis by (elim disjE) (simp_all add: digit_char_def)
qed

lemma digit_char_digit: "d < 10 \<Longrightarrow> digit_char d \<in> set ''0123456789''"
  using digit_char_cases by blast

lemma digit_char_value: "d < 10 \<Longrightarrow> (of_char (digit_char d) :: nat) - 48 = d"
  using digit_char_cases [of d] by simp

lemma decimal_value_snoc:
  "decimal_value (s @ [c]) = 10 * decimal_value s + (of_char c - 48)"
  by (simp add: decimal_value_def)

lemma str_nat_small: "n < 10 \<Longrightarrow> str_nat n = [digit_char n]"
  by (subst str_nat.simps) simp

lemma str_nat_large:
  "\<not> n < 10 \<Longrightarrow> str_nat n = str_nat (n div 10) @ [digit_char (n mod 10)]"
  by (subst str_nat.simps) simp

lemma str_nat_digits: "str_nat n \<noteq> [] \<and> set (str_nat n) \<subseteq> set ''0123456789''"
proof (induction n rule: str_nat.induct)
  case (1 n)
  show ?case
  proof (cases "n < 10")
    case True
    then show ?thesis using digit_char_digit [OF True] by (simp add: str_nat_small)
  next
    case False
    have "digit_char (n mod 10) \<in> set ''0123456789''"
      by (rule digit_char_digit) simp
    then show ?thesis using "1.IH" [OF False] by (simp add: str_nat_large [OF False])
  qed
qed

lemma decimal_value_str_nat: "decimal_value (str_nat n) = n"
proof (induction n rule: str_nat.induct)
  case (1 n)
  show ?case
  proof (cases "n < 10")
    case True
    then show ?thesis
      by (simp add: str_nat_small decimal_value_def digit_char_value)
  next
    case False
    have "n mod 10 < 10" by simp
    then have "(of_char (digit_char (n mod 10)) :: nat) - 48 = n mod 10"
      by (rule digit_char_value)
    then show ?thesis
      using "1.IH" [OF False] by (simp add: str_nat_large [OF False] decimal_value_snoc)
  qed
qed

text \<open>The integer part has no leading zero, unless it is the single digit 0.\<close>

lemma str_nat_canonical: "hd (str_nat n) = CHR ''0'' \<Longrightarrow> str_nat n = ''0''"
proof (induction n rule: str_nat.induct)
  case (1 n)
  show ?case
  proof (cases "n < 10")
    case True
    then have v: "(of_char (digit_char n) :: nat) - 48 = n" by (rule digit_char_value)
    have "digit_char n = CHR ''0''"
      using "1.prems" True by (simp add: str_nat_small)
    then have "n = 0" using v by simp
    then show ?thesis by (simp add: str_nat_small digit_char_def)
  next
    case False
    have ne: "str_nat (n div 10) \<noteq> []" using str_nat_digits by blast
    then have "hd (str_nat (n div 10)) = CHR ''0''"
      using "1.prems" by (simp add: str_nat_large [OF False])
    then have "str_nat (n div 10) = ''0''" by (rule "1.IH" [OF False])
    then have "decimal_value (str_nat (n div 10)) = 0" by (simp add: decimal_value_def)
    then have "n div 10 = 0" by (simp only: decimal_value_str_nat)
    then show ?thesis using False by simp
  qed
qed


lemma two_decimals_split:
  "10 * (10 * (q div 100) + q mod 100 div 10) + q mod 10 = (q::nat)"
proof -
  define A B C M where "A = q div 100" and "B = q mod 100 div 10" and "C = q mod 10"
    and "M = q mod 100"
  have a: "M mod 10 = C" by (simp add: M_def C_def mod_mod_cancel)
  have b: "10 * B + M mod 10 = M"
    unfolding B_def M_def by (rule mult_div_mod_eq)
  have c: "100 * A + M = q"
    unfolding A_def M_def by (rule mult_div_mod_eq)
  have "10 * (10 * A + B) + C = 100 * A + (10 * B + C)" by simp
  also have "\<dots> = q" using a b c by simp
  finally show ?thesis by (simp only: A_def B_def C_def)
qed

lemma format_2f_spec:
  "\<exists>ip d1 d2.
     format_2f x = (if x < 0 then ''-'' else '''') @ ip @ ''.'' @ [d1, d2]
     \<and> ip \<noteq> [] \<and> set (ip @ [d1, d2]) \<subseteq> set ''0123456789''
     \<and> (hd ip = CHR ''0'' \<longrightarrow> ip = ''0'')
     \<and> (\<bar>real (decimal_value (ip @ [d1, d2])) - \<bar>x\<bar> * 100\<bar> < 1/2
         \<or> (\<bar>real (decimal_value (ip @ [d1, d2])) - \<bar>x\<bar> * 100\<bar> = 1/2
            \<and> even (decimal_value (ip @ [d1, d2]))))"
proof -
  define r where "r = round_half_even (\<bar>x\<bar> * 100)"
  define q where "q = nat r"
  have r0: "0 \<le> r" unfolding r_def by (rule round_half_even_nonneg) simp
  then have rq: "r = int q" by (simp add: q_def)
  define ip where "ip = str_nat (q div 100)"
  define d1 where "d1 = digit_char (q mod 100 div 10)"
  define d2 where "d2 = digit_char (q mod 10)"
  have f: "format_2f x = (if x < 0 then ''-'' else '''') @ ip @ ''.'' @ [d1, d2]"
    by (simp add: format_2f_def Let_def q_def r_def ip_def d1_def d2_def)
  have lt: "q mod 100 div 10 < 10" "q mod 10 < 10" by simp_all
  have dg: "d1 \<in> set ''0123456789''" "d2 \<in> set ''0123456789''"
    unfolding d1_def d2_def using lt by (simp_all only: digit_char_digit)
  have v1: "(of_char d1 :: nat) - 48 = q mod 100 div 10"
    unfolding d1_def by (rule digit_char_value [OF lt(1)])
  have v2: "(of_char d2 :: nat) - 48 = q mod 10"
    unfolding d2_def by (rule digit_char_value [OF lt(2)])
  have "decimal_value ((ip @ [d1]) @ [d2]) =
      10 * (10 * (q div 100) + q mod 100 div 10) + q mod 10"
    by (simp only: decimal_value_snoc v1 v2 ip_def decimal_value_str_nat)
  also have "\<dots> = q" by (rule two_decimals_split)
  finally have dv: "decimal_value (ip @ [d1, d2]) = q" by simp
  have "\<bar>real_of_int r - \<bar>x\<bar> * 100\<bar> < 1/2
      \<or> (\<bar>real_of_int r - \<bar>x\<bar> * 100\<bar> = 1/2 \<and> even r)"
    unfolding r_def by (rule round_half_even_nearest)
  then have near: "\<bar>real q - \<bar>x\<bar> * 100\<bar> < 1/2 \<or> (\<bar>real q - \<bar>x\<bar> * 100\<bar> = 1/2 \<and> even q)"
    by (simp add: rq)
  have near': "\<bar>real (decimal_value (ip @ [d1, d2])) - \<bar>x\<bar> * 100\<bar> < 1/2
         \<or> (\<bar>real (decimal_value (ip @ [d1, d2])) - \<bar>x\<bar> * 100\<bar> = 1/2
            \<and> even (decimal_value (ip @ [d1, d2])))"
    using near by (simp only: dv)
  have ne: "ip \<noteq> []" and ds: "set ip \<subseteq> set ''0123456789''"
    unfolding ip_def using str_nat_digits [of "q div 100"] by simp_all
  have all: "set (ip @ [d1, d2]) \<subseteq> set ''0123456789''"
    using ds dg by simp
  have can: "hd ip = CHR ''0'' \<longrightarrow> ip = ''0''"
    unfolding ip_def using str_nat_canonical by blast
  from f ne all can near' show ?thesis by blast
qed

lemma human_loop_units:
  "human_loop v units =
    (if 1000000000 \<le> v then format_2f (round_binary64 (v / 1000000000)) @ '' '' @ ''G'' @ Ohm
     else if 1000000 \<le> v then format_2f (round_binary64 (v / 1000000)) @ '' '' @ ''M'' @ Ohm
     else if 1000 \<le> v then format_2f (round_binary64 (v / 1000)) @ '' '' @ ''k'' @ Ohm
     else if 1 \<le> v then format_2f (round_binary64 (v / 1)) @ '' '' @ Ohm
     else format_2f v @ '' '' @ Ohm)"
  by (simp add: units_def)

text \<open>The two quotients \<^verbatim>\<open>4700/1000\<close> and \<^verbatim>\<open>1015/1000\<close> as floats, and how they print.\<close>

lemma quotient_4700: "round_binary64 (47 / 10) = 5291729562160333 / 1125899906842624"
proof -
  have "round_binary64 (47 / 10) =
     sgn (47 / 10 :: real) * of_int (round_half_even (\<bar>47 / 10\<bar> / 2 powi (2 - 52)))
       * 2 powi (2 - 52)"
    by (rule round_binary64_at) simp_all
  then show ?thesis
    by (simp add: round_half_even_def)
qed

lemma quotient_1015: "round_binary64 (203 / 200) = 4571153621781053 / 4503599627370496"
proof -
  have "round_binary64 (203 / 200) =
     sgn (203 / 200 :: real) * of_int (round_half_even (\<bar>203 / 200\<bar> / 2 powi (0 - 52)))
       * 2 powi (0 - 52)"
    by (rule round_binary64_at) simp_all
  then show ?thesis
    by (simp add: round_half_even_def)
qed

lemma format_2f_digits:
  assumes "round_half_even (\<bar>x\<bar> * 100) = int q" "0 \<le> x"
  shows "format_2f x =
    str_nat (q div 100) @ ''.'' @ [digit_char (q mod 100 div 10), digit_char (q mod 10)]"
  using assms by (simp add: format_2f_def)

lemma format_2f_4700: "format_2f (5291729562160333 / 1125899906842624) = ''4.70''"
proof -
  have "round_half_even (\<bar>5291729562160333 / 1125899906842624\<bar> * 100) = int 470"
    by (simp add: round_half_even_def)
  then have "format_2f (5291729562160333 / 1125899906842624) =
    str_nat (470 div 100) @ ''.'' @ [digit_char (470 mod 100 div 10), digit_char (470 mod 10)]"
    by (rule format_2f_digits) simp
  then show ?thesis by (simp add: str_nat_small digit_char_def)
qed

lemma format_2f_1015: "format_2f (4571153621781053 / 4503599627370496) = ''1.01''"
proof -
  have "round_half_even (\<bar>4571153621781053 / 4503599627370496\<bar> * 100) = int 101"
    by (simp add: round_half_even_def)
  then have "format_2f (4571153621781053 / 4503599627370496) =
    str_nat (101 div 100) @ ''.'' @ [digit_char (101 mod 100 div 10), digit_char (101 mod 10)]"
    by (rule format_2f_digits) simp
  then show ?thesis by (simp add: str_nat_small digit_char_def)
qed

lemma format_2f_half: "format_2f (1 / 2) = ''0.50''"
proof -
  have "round_half_even (\<bar>1 / 2\<bar> * 100) = int 50"
    by (simp add: round_half_even_def)
  then have "format_2f (1 / 2) =
    str_nat (50 div 100) @ ''.'' @ [digit_char (50 mod 100 div 10), digit_char (50 mod 10)]"
    by (rule format_2f_digits) simp
  then show ?thesis by (simp add: str_nat_small digit_char_def)
qed

text \<open>
  Claim C8. The formatter returns absent for an absent input. For a present value it takes
  the largest of the thresholds giga, mega, kilo, unit that the value meets, divides by it
  (a float division) and prints the quotient with exactly two decimals, followed by a space
  and the unit symbol; a value below 1 is printed in plain ohms with two decimals. What is
  printed for a number is: a minus sign if it is negative, then the decimal digits, without
  a leading zero, of the nearest integer to a hundred times its magnitude (a tie going to the
  even integer), with a point before the last two digits. In particular 4700 is printed as
  4.70 kilo-ohm, 0.5 as 0.50 ohm, and 1015, whose quotient by 1000 is a float just below 1.015,
  as 1.01 kilo-ohm.
\<close>

theorem human_spec:
  "human None = None
   \<and> (1000000000 \<le> v \<longrightarrow>
        human (Some v) = Some (format_2f (round_binary64 (v / 1000000000)) @ '' G'' @ Ohm))
   \<and> (1000000 \<le> v \<and> v < 1000000000 \<longrightarrow>
        human (Some v) = Some (format_2f (round_binary64 (v / 1000000)) @ '' M'' @ Ohm))
   \<and> (1000 \<le> v \<and> v < 1000000 \<longrightarrow>
        human (Some v) = Some (format_2f (round_binary64 (v / 1000)) @ '' k'' @ Ohm))
   \<and> (1 \<le> v \<and> v < 1000 \<longrightarrow>
        human (Some v) = Some (format_2f (round_binary64 (v / 1)) @ '' '' @ Ohm))
   \<and> (v < 1 \<longrightarrow> human (Some v) = Some (format_2f v @ '' '' @ Ohm))
   \<and> (\<exists>ip d1 d2.
         format_2f x = (if x < 0 then ''-'' else '''') @ ip @ ''.'' @ [d1, d2]
         \<and> ip \<noteq> [] \<and> set (ip @ [d1, d2]) \<subseteq> set ''0123456789''
         \<and> (hd ip = CHR ''0'' \<longrightarrow> ip = ''0'')
         \<and> (\<bar>real (decimal_value (ip @ [d1, d2])) - \<bar>x\<bar> * 100\<bar> < 1/2
             \<or> (\<bar>real (decimal_value (ip @ [d1, d2])) - \<bar>x\<bar> * 100\<bar> = 1/2
                \<and> even (decimal_value (ip @ [d1, d2])))))
   \<and> human (Some 4700) = Some (''4.70 k'' @ Ohm)
   \<and> human (Some (1 / 2)) = Some (''0.50 '' @ Ohm)
   \<and> human (Some 1015) = Some (''1.01 k'' @ Ohm)"
proof (intro conjI)
  show "human None = None" by (simp add: human_def)
  show "1000000000 \<le> v \<longrightarrow>
        human (Some v) = Some (format_2f (round_binary64 (v / 1000000000)) @ '' G'' @ Ohm)"
    by (simp add: human_def human_loop_units)
  show "1000000 \<le> v \<and> v < 1000000000 \<longrightarrow>
        human (Some v) = Some (format_2f (round_binary64 (v / 1000000)) @ '' M'' @ Ohm)"
    by (simp add: human_def human_loop_units)
  show "1000 \<le> v \<and> v < 1000000 \<longrightarrow>
        human (Some v) = Some (format_2f (round_binary64 (v / 1000)) @ '' k'' @ Ohm)"
    by (simp add: human_def human_loop_units)
  show "1 \<le> v \<and> v < 1000 \<longrightarrow>
        human (Some v) = Some (format_2f (round_binary64 (v / 1)) @ '' '' @ Ohm)"
    by (simp add: human_def human_loop_units)
  show "v < 1 \<longrightarrow> human (Some v) = Some (format_2f v @ '' '' @ Ohm)"
    by (simp add: human_def human_loop_units)
  show "\<exists>ip d1 d2.
         format_2f x = (if x < 0 then ''-'' else '''') @ ip @ ''.'' @ [d1, d2]
         \<and> ip \<noteq> [] \<and> set (ip @ [d1, d2]) \<subseteq> set ''0123456789''
         \<and> (hd ip = CHR ''0'' \<longrightarrow> ip = ''0'')
         \<and> (\<bar>real (decimal_value (ip @ [d1, d2])) - \<bar>x\<bar> * 100\<bar> < 1/2
             \<or> (\<bar>real (decimal_value (ip @ [d1, d2])) - \<bar>x\<bar> * 100\<bar> = 1/2
                \<and> even (decimal_value (ip @ [d1, d2]))))"
    by (rule format_2f_spec)
  have "human (Some 4700) = Some (format_2f (round_binary64 (47 / 10)) @ '' k'' @ Ohm)"
    by (simp add: human_def human_loop_units)
  then show "human (Some 4700) = Some (''4.70 k'' @ Ohm)"
    by (simp add: quotient_4700 format_2f_4700)
  have "human (Some (1 / 2)) = Some (format_2f (1 / 2) @ '' '' @ Ohm)"
    by (simp add: human_def human_loop_units)
  then show "human (Some (1 / 2)) = Some (''0.50 '' @ Ohm)"
    by (simp add: format_2f_half)
  have "human (Some 1015) = Some (format_2f (round_binary64 (203 / 200)) @ '' k'' @ Ohm)"
    by (simp add: human_def human_loop_units)
  then show "human (Some 1015) = Some (''1.01 k'' @ Ohm)"
    by (simp add: quotient_1015 format_2f_1015)
qed

theorem human_spec_witness:
  "human (Some 4700000000) = Some (format_2f (round_binary64 (47 / 10)) @ '' G'' @ Ohm)
   \<and> human (Some 4700) = Some (format_2f (round_binary64 (47 / 10)) @ '' k'' @ Ohm)
   \<and> human (Some 4700) = Some (''4.70 k'' @ Ohm)
   \<and> human (Some (1 / 2)) = Some (format_2f (1 / 2) @ '' '' @ Ohm)
   \<and> format_2f (round_binary64 (47 / 10)) = ''4.70''"
proof -
  have "human (Some 4700000000) = Some (format_2f (round_binary64 (47 / 10)) @ '' G'' @ Ohm)"
    using human_spec [of 4700000000] by simp
  moreover have "human (Some 4700) = Some (format_2f (round_binary64 (47 / 10)) @ '' k'' @ Ohm)"
    using human_spec [of 4700] by simp
  moreover have "human (Some (1 / 2)) = Some (format_2f (1 / 2) @ '' '' @ Ohm)"
    using human_spec [of "1 / 2"] by simp
  moreover have "format_2f (round_binary64 (47 / 10)) = ''4.70''"
    by (simp add: quotient_4700 format_2f_4700)
  ultimately show ?thesis by simp
qed

section \<open>Properties of the alias normalizer\<close>



















end
